theory Spec2Isabelle
  imports Complex_Main "HOL-Library.Multiset" "HOL-Library.Char_ord" "HOL-Library.List_Lexorder"
    "HOL-Library.Log_Nat"
begin

section \<open>Data model of the gear monitor\<close>

text \<open>
  An instant is a timezone-aware \<open>datetime\<close>, counted in microseconds since
  1970-01-01T00:00:00Z. The years 1 to 9999 that a \<open>datetime\<close> can hold are checked
  where the program computes a new one, in \<open>datetime_add\<close> below.

  A distance or an interval value is a finite Python \<open>float\<close>, written as the rational
  it denotes. In the running totals of the Usage Aggregator, in \<open>timedelta\<close> and in the
  next-service distance, where the program adds, multiplies or divides floats, the
  model applies \<open>round_double\<close> to the exact result, as the binary64 arithmetic of
  Python does. The snapshot sum of \<open>calculate_distance\<close> is kept exact.
\<close>

type_synonym datetime = int

datatype py_error = KeyError | ValueError | TypeError | AttributeError | OverflowError

text \<open>
  An activity is the dictionary of the activity feed. A key that may be absent is an
  option; a distance that is present is a number. \<open>act_start_date\<close> holds what
  \<^verbatim>\<open>datetime.fromisoformat(activity['start_date'].replace('Z', '+00:00'))\<close>
  evaluates to for this activity: the instant, or the exception it raises (KeyError
  for a missing key, ValueError for a malformed string). The dates of the feed carry
  a UTC offset; a date without one would parse to a naive \<open>datetime\<close>, which Python
  refuses to order against an aware one, and is not modelled.
\<close>

record activity =
  act_id :: int
  act_gear_id :: "string option"
  act_sport_type :: "string option"
  act_distance :: "rat option"
  act_start_date :: "py_error + datetime"

datatype MaintenanceType = WASH | TIRE_PRESSURE | LUBE

record MaintenanceRecord =
  mr_gear_id :: string
  mr_maintenance_type :: MaintenanceType
  mr_date :: datetime
  mr_notes :: "string option"
  mr_distance_at_maintenance :: rat
  activities_since_last_maintenance :: "activity list"

record GearUsage =
  gu_gear_id :: string
  sport_types :: "string set"
  total_distance_m :: rat
  total_distance_km :: rat
  activities_count :: nat
  first_activity_date :: "datetime option"
  last_activity_date :: "datetime option"
  maintenance_history :: "MaintenanceRecord list"

record ServiceInterval =
  si_gear_id :: string
  si_item :: string
  interval_type :: string
  interval_value :: rat
  si_action :: string
  last_service_date :: "datetime option"
  last_service_distance :: "rat option"

record Component =
  c_id :: string
  c_name :: string
  c_brand :: string
  c_model :: string
  installation_date :: datetime
  c_gear_id :: string
  status :: string
  c_notes :: "string option"
  purchase_date :: "datetime option"
  purchase_price :: "rat option"
  mileage_at_installation :: rat
  current_mileage :: rat

record ComponentSwap =
  sw_date :: datetime
  sw_gear_id :: string
  component_id :: string
  old_component_id :: "string option"
  sw_action :: string
  mileage :: rat
  sw_notes :: "string option"

text \<open>The mutable fields of \<open>StravaGearMonitor\<close> that the operations below touch.\<close>

record monitor =
  maintenance_records :: "string \<rightharpoonup> MaintenanceRecord list"
  service_intervals :: "string \<rightharpoonup> ServiceInterval list"
  components :: "string \<rightharpoonup> Component"
  component_swaps :: "ComponentSwap list"

section \<open>Helpers for Python built-ins\<close>

text \<open>\<^verbatim>\<open>activity.get('distance', 0)\<close>\<close>

definition get_distance :: "activity \<Rightarrow> rat" where
  "get_distance a = (case act_distance a of None \<Rightarrow> 0 | Some d \<Rightarrow> d)"

text \<open>
  \<^verbatim>\<open>max(xs, key=f)\<close>: the first element whose key is maximal; \<open>None\<close> stands for the
  ValueError on an empty list.
\<close>

fun max_key_from :: "('a \<Rightarrow> int) \<Rightarrow> 'a \<Rightarrow> 'a list \<Rightarrow> 'a" where
  "max_key_from f best [] = best"
| "max_key_from f best (x # xs) = max_key_from f (if f best < f x then x else best) xs"

definition max_key :: "('a \<Rightarrow> int) \<Rightarrow> 'a list \<Rightarrow> 'a option" where
  "max_key f xs = (case xs of [] \<Rightarrow> None | x # rest \<Rightarrow> Some (max_key_from f x rest))"

text \<open>\<^verbatim>\<open>del xs[i]\<close> for an index inside the list.\<close>

fun del_at :: "nat \<Rightarrow> 'a list \<Rightarrow> 'a list" where
  "del_at i [] = []"
| "del_at 0 (x # xs) = xs"
| "del_at (Suc i) (x # xs) = x # del_at i xs"

text \<open>\<^verbatim>\<open>str.lower()\<close> on ASCII text.\<close>

definition lower_char :: "char \<Rightarrow> char" where
  "lower_char c =
     (let n = (of_char c :: nat) in if 65 \<le> n \<and> n \<le> 90 then char_of (n + 32) else c)"

definition lower :: "string \<Rightarrow> string" where
  "lower s = map lower_char s"

text \<open>
  \<^verbatim>\<open>r.maintenance_type == item\<close> with \<open>item\<close> a \<open>str\<close>: \<open>MaintenanceType\<close> is a plain
  \<open>Enum\<close>, whose members are equal only to themselves, so the comparison with a string
  is \<open>False\<close> for every member.
\<close>

definition enum_eq_str :: "MaintenanceType \<Rightarrow> string \<Rightarrow> bool" where
  "enum_eq_str t s = False"

text \<open>Rounding to the nearest integer, a tie going to the even one.\<close>

definition round_half_even :: "rat \<Rightarrow> int" where
  "round_half_even x =
     (let f = \<lfloor>x\<rfloor>; r = x - of_int f
      in if r < 1 / 2 then f else if 1 / 2 < r then f + 1 else if even f then f else f + 1)"

text \<open>
  The binary64 rounding of float arithmetic. For \<open>x > 0\<close>, \<open>log2_floor x\<close> is the
  exponent \<open>e\<close> with \<open>2 powi e \<le> x < 2 powi (e + 1)\<close>, found from the bit lengths of
  numerator and denominator. \<open>round_double x\<close> is the multiple of \<open>2 powi (e - 52)\<close>
  nearest to \<open>x\<close>, a tie going to the even multiple, which leaves 53 significant bits;
  below \<open>2 powi (- 1022)\<close> the spacing stays \<open>2 powi (- 1074)\<close>. The exponent has no
  upper limit here: a result of at least \<open>2 ^ 1024\<close> is what Python turns into \<open>inf\<close>,
  and \<open>float_overflows\<close> tests for it where a due distance is computed. The totals of
  a gear are taken to stay below that.
\<close>

definition log2_floor :: "rat \<Rightarrow> int" where
  "log2_floor x =
     (let k = bitlen (fst (quotient_of x)) - bitlen (snd (quotient_of x))
      in if 2 powi k \<le> x then k else k - 1)"

definition round_double :: "rat \<Rightarrow> rat" where
  "round_double x =
     (if x = 0 then 0
      else (let e = max (log2_floor \<bar>x\<bar>) (- 1022); ulp = 2 powi (e - 52)
            in of_int (round_half_even (x / ulp)) * ulp))"

definition float_overflows :: "rat \<Rightarrow> bool" where
  "float_overflows r \<longleftrightarrow> 2 ^ 1024 \<le> \<bar>r\<bar>"

text \<open>
  \<^verbatim>\<open>timedelta(weeks=v)\<close> in microseconds, as the constructor computes it: \<open>modf\<close>
  splits \<open>v\<close> into its integer part (towards zero) and its fraction; the integer part
  is multiplied exactly by the microseconds of a week, the fraction in float
  arithmetic; the sum is rounded to a whole microsecond, a tie going to the even one.
  A \<open>timedelta\<close> holds at most 999999999 days either way, beyond which the constructor
  raises OverflowError.
\<close>

definition modf_int :: "rat \<Rightarrow> int" where
  "modf_int x = (if 0 \<le> x then \<lfloor>x\<rfloor> else \<lceil>x\<rceil>)"

definition timedelta_weeks :: "rat \<Rightarrow> py_error + int" where
  "timedelta_weeks v =
     (let intpart = modf_int v;
          fracpart = v - of_int intpart;
          us = round_half_even
                 (of_int (intpart * 604800000000) + round_double (604800000000 * fracpart));
          days = us div 86400000000
      in if - 999999999 \<le> days \<and> days \<le> 999999999 then Inr us else Inl OverflowError)"

text \<open>
  \<^verbatim>\<open>d + delta\<close> for a \<open>datetime\<close> and a \<open>timedelta\<close>. The sum is formed on the
  calendar fields of \<open>d\<close>, which are those of the instant shifted by the UTC offset of
  its timezone, and raises OverflowError when the year leaves 1 to 9999:
  \<open>datetime_min\<close> is 0001-01-01T00:00:00 and \<open>datetime_max\<close> is
  9999-12-31T23:59:59.999999 on the microsecond scale of the instants. The program
  gives every stored date the timezone of the machine; \<open>utcoffset\<close> is its offset in
  microseconds.
\<close>

definition datetime_min :: int where
  "datetime_min = - 62135596800000000"

definition datetime_max :: int where
  "datetime_max = 253402300799999999"

definition datetime_add :: "int \<Rightarrow> datetime \<Rightarrow> int \<Rightarrow> py_error + datetime" where
  "datetime_add utcoffset d us =
     (let wall = d + utcoffset + us
      in if datetime_min \<le> wall \<and> wall \<le> datetime_max then Inr (d + us)
         else Inl OverflowError)"

section \<open>MaintenanceRecord.calculate_distance\<close>

definition calculate_distance :: "MaintenanceRecord \<Rightarrow> rat" where
  "calculate_distance r =
     sum_list (map get_distance (activities_since_last_maintenance r)) / 1000"

section \<open>Usage Aggregator: analyze_gear_usage\<close>

text \<open>
  One pass of the loop body; \<open>Inl\<close> is the exception that leaves the function. The
  running total is a float: \<^verbatim>\<open>usage.total_distance_m += distance\<close> rounds the sum, and
  \<^verbatim>\<open>usage.total_distance_m / 1000\<close> rounds the quotient.
\<close>

definition new_usage :: "monitor \<Rightarrow> string \<Rightarrow> GearUsage" where
  "new_usage self g =
     \<lparr>gu_gear_id = g, sport_types = {}, total_distance_m = 0, total_distance_km = 0,
      activities_count = 0, first_activity_date = None, last_activity_date = None,
      maintenance_history = (case maintenance_records self g of None \<Rightarrow> [] | Some rs \<Rightarrow> rs)\<rparr>"

definition update_usage :: "GearUsage \<Rightarrow> activity \<Rightarrow> py_error + GearUsage" where
  "update_usage usage a =
     (let u1 = (case act_sport_type a of
                  None \<Rightarrow> usage
                | Some s \<Rightarrow> if s = [] then usage
                            else usage\<lparr>sport_types := insert s (sport_types usage)\<rparr>);
          u2 = u1\<lparr>total_distance_m := round_double (total_distance_m u1 + get_distance a)\<rparr>;
          u3 = u2\<lparr>total_distance_km := round_double (total_distance_m u2 / 1000)\<rparr>;
          u4 = u3\<lparr>activities_count := activities_count u3 + 1\<rparr>
      in case act_start_date a of
           Inl e \<Rightarrow> Inl e
         | Inr d \<Rightarrow>
             (let u5 = (case first_activity_date u4 of
                          None \<Rightarrow> u4\<lparr>first_activity_date := Some d\<rparr>
                        | Some f \<Rightarrow> if d < f then u4\<lparr>first_activity_date := Some d\<rparr> else u4);
                  u6 = (case last_activity_date u5 of
                          None \<Rightarrow> u5\<lparr>last_activity_date := Some d\<rparr>
                        | Some l \<Rightarrow> if l < d then u5\<lparr>last_activity_date := Some d\<rparr> else u5)
              in Inr u6))"

definition analyze_activity ::
  "monitor \<Rightarrow> (string \<rightharpoonup> GearUsage) \<Rightarrow> activity \<Rightarrow> py_error + (string \<rightharpoonup> GearUsage)" where
  "analyze_activity self gear_usage a =
     (case act_gear_id a of
        None \<Rightarrow> Inr gear_usage
      | Some g \<Rightarrow>
          if g = [] then Inr gear_usage
          else (case update_usage (case gear_usage g of None \<Rightarrow> new_usage self g | Some u \<Rightarrow> u) a of
                  Inl e \<Rightarrow> Inl e
                | Inr u \<Rightarrow> Inr (gear_usage(g \<mapsto> u))))"

fun analyze_loop ::
  "monitor \<Rightarrow> (string \<rightharpoonup> GearUsage) \<Rightarrow> activity list \<Rightarrow> py_error + (string \<rightharpoonup> GearUsage)" where
  "analyze_loop self gear_usage [] = Inr gear_usage"
| "analyze_loop self gear_usage (a # rest) =
     (case analyze_activity self gear_usage a of
        Inl e \<Rightarrow> Inl e
      | Inr gear_usage' \<Rightarrow> analyze_loop self gear_usage' rest)"

definition analyze_gear_usage ::
  "monitor \<Rightarrow> activity list \<Rightarrow> py_error + (string \<rightharpoonup> GearUsage)" where
  "analyze_gear_usage self activities = analyze_loop self Map.empty activities"

section \<open>Window Selector: _get_activities_between_dates\<close>

text \<open>
  The loop appends to \<open>filtered_activities\<close>; an exception in the body is caught and the
  activity skipped. With a numeric distance the logging lines of the body raise nothing.
\<close>

fun between_loop ::
  "datetime option \<Rightarrow> datetime \<Rightarrow> activity list \<Rightarrow> activity list \<Rightarrow> activity list" where
  "between_loop start_date end_date filtered_activities [] = filtered_activities"
| "between_loop start_date end_date filtered_activities (a # rest) =
     (case act_start_date a of
        Inl e \<Rightarrow> between_loop start_date end_date filtered_activities rest
      | Inr activity_date \<Rightarrow>
          if (case start_date of None \<Rightarrow> True | Some s \<Rightarrow> s \<le> activity_date)
          then if activity_date \<le> end_date
               then between_loop start_date end_date (filtered_activities @ [a]) rest
               else between_loop start_date end_date filtered_activities rest
          else between_loop start_date end_date filtered_activities rest)"

definition get_activities_between_dates ::
  "activity list \<Rightarrow> datetime option \<Rightarrow> datetime \<Rightarrow> activity list" where
  "get_activities_between_dates activities start_date end_date =
     between_loop start_date end_date [] activities"

section \<open>Maintenance Ledger\<close>

text \<open>
  \<open>current_date\<close> is \<^verbatim>\<open>datetime.now().astimezone()\<close> and \<open>activities\<close> what
  \<open>get_all_activities\<close> fetched. Saving to the file catches its own errors and leaves
  the fields as they are.
\<close>

definition record_maintenance ::
  "datetime \<Rightarrow> activity list \<Rightarrow> monitor \<Rightarrow> string \<Rightarrow> MaintenanceType \<Rightarrow> string option
     \<Rightarrow> bool \<times> monitor" where
  "record_maintenance current_date activities self gear_id maintenance_type notes =
     (let previous_maintenance =
            (case maintenance_records self gear_id of
               None \<Rightarrow> None
             | Some rs \<Rightarrow>
                 max_key mr_date [r \<leftarrow> rs. mr_maintenance_type r = maintenance_type]);
          activities_since_maintenance =
            get_activities_between_dates activities
              (case previous_maintenance of None \<Rightarrow> None | Some p \<Rightarrow> Some (mr_date p))
              current_date;
          gear_activities = [a \<leftarrow> activities_since_maintenance. act_gear_id a = Some gear_id];
          record = \<lparr>mr_gear_id = gear_id, mr_maintenance_type = maintenance_type,
                    mr_date = current_date, mr_notes = notes, mr_distance_at_maintenance = 0,
                    activities_since_last_maintenance = gear_activities\<rparr>;
          records = (case maintenance_records self gear_id of None \<Rightarrow> [] | Some rs \<Rightarrow> rs)
      in (True, self\<lparr>maintenance_records := (maintenance_records self)(gear_id \<mapsto> records @ [record])\<rparr>))"

definition delete_maintenance_record :: "monitor \<Rightarrow> string \<Rightarrow> int \<Rightarrow> bool \<times> monitor" where
  "delete_maintenance_record self gear_id record_index =
     (case maintenance_records self gear_id of
        None \<Rightarrow> (False, self)
      | Some records \<Rightarrow>
          if \<not> (1 \<le> record_index \<and> record_index \<le> int (length records)) then (False, self)
          else (True, self\<lparr>maintenance_records :=
                  (maintenance_records self)(gear_id \<mapsto> del_at (nat (record_index - 1)) records)\<rparr>))"

definition get_maintenance_history ::
  "monitor \<Rightarrow> string \<Rightarrow> string option \<Rightarrow> MaintenanceRecord list" where
  "get_maintenance_history self gear_id item =
     (let records = (case maintenance_records self gear_id of None \<Rightarrow> [] | Some rs \<Rightarrow> rs);
          records' = (case item of
                        None \<Rightarrow> records
                      | Some i \<Rightarrow> if i = [] then records
                                  else [r \<leftarrow> records. enum_eq_str (mr_maintenance_type r) i])
      in sort_key mr_date records')"

section \<open>Service Interval Tracker\<close>

definition add_service_interval ::
  "monitor \<Rightarrow> string \<Rightarrow> string \<Rightarrow> string \<Rightarrow> rat \<Rightarrow> string \<Rightarrow> bool \<times> monitor" where
  "add_service_interval self gear_id item itype ivalue action =
     (if get_maintenance_history self gear_id (Some item) = [] then (False, self)
      else if itype \<noteq> ''time'' \<and> itype \<noteq> ''distance'' then (False, self)
      else if ivalue \<le> 0 then (False, self)
      else (case max_key mr_date (get_maintenance_history self gear_id (Some item)) of
              None \<Rightarrow> (False, self)
            | Some latest_record \<Rightarrow>
                (let interval = \<lparr>si_gear_id = gear_id, si_item = lower item, interval_type = itype,
                                  interval_value = ivalue, si_action = lower action,
                                  last_service_date = Some (mr_date latest_record),
                                  last_service_distance = Some (calculate_distance latest_record)\<rparr>;
                     intervals = (case service_intervals self gear_id of None \<Rightarrow> [] | Some is \<Rightarrow> is)
                 in (True, self\<lparr>service_intervals :=
                             (service_intervals self)(gear_id \<mapsto> intervals @ [interval])\<rparr>))))"


text \<open>
  The "Next Service Due" value that the two report functions compute for one interval:
  nothing when the interval has no last service date, a date for a time interval, a
  distance otherwise. The date is \<^verbatim>\<open>last_service_date + timedelta(weeks=interval_value)\<close>,
  where the constructor and the addition can each raise OverflowError; the distance is
  the float sum \<^verbatim>\<open>last_service_distance + interval_value\<close>, which is \<open>inf\<close> or \<open>-inf\<close>
  (\<open>DueInfinite\<close> with the sign, \<open>True\<close> for \<open>inf\<close>) when it overflows, and adding a
  missing distance raises TypeError. Neither report function catches an exception, so
  the first interval that raises ends the report.
\<close>

datatype next_due = DueDate datetime | DueDistance rat | DueInfinite bool

definition next_service :: "int \<Rightarrow> ServiceInterval \<Rightarrow> py_error + next_due option" where
  "next_service utcoffset interval =
     (case last_service_date interval of
        None \<Rightarrow> Inr None
      | Some d \<Rightarrow>
          if interval_type interval = ''time''
          then (case timedelta_weeks (interval_value interval) of
                  Inl e \<Rightarrow> Inl e
                | Inr us \<Rightarrow>
                    (case datetime_add utcoffset d us of
                       Inl e \<Rightarrow> Inl e
                     | Inr due \<Rightarrow> Inr (Some (DueDate due))))
          else (case last_service_distance interval of
                  None \<Rightarrow> Inl TypeError
                | Some x \<Rightarrow>
                    (let next_service_distance = round_double (x + interval_value interval)
                     in Inr (Some (if float_overflows next_service_distance
                                   then DueInfinite (0 < next_service_distance)
                                   else DueDistance next_service_distance)))))"




section \<open>Component Lifecycle Manager: swap_component\<close>

text \<open>
  \<open>now_removal\<close> and \<open>now_install\<close> are the two readings of the clock, \<open>activities\<close>
  what \<open>get_all_activities\<close> fetched. An exception of \<open>analyze_gear_usage\<close> is caught
  by the function's handler before any field has changed. On the two early returns of
  the installation step nothing is undone.
\<close>

definition swap_component ::
  "datetime \<Rightarrow> datetime \<Rightarrow> activity list \<Rightarrow> monitor \<Rightarrow> string \<Rightarrow> string \<Rightarrow> string option
     \<Rightarrow> string \<Rightarrow> string option \<Rightarrow> bool \<times> monitor" where
  "swap_component now_removal now_install activities self gear_id old_id new_id action notes =
     (case components self old_id of
        None \<Rightarrow> (False, self)
      | Some old_component \<Rightarrow>
          if c_gear_id old_component \<noteq> gear_id then (False, self)
          else (case analyze_gear_usage self activities of
                  Inl e \<Rightarrow> (False, self)
                | Inr gear_usage \<Rightarrow>
                    (let cur = (case gear_usage gear_id of
                                  None \<Rightarrow> 0 | Some u \<Rightarrow> total_distance_km u);
                         old' = old_component
                                  \<lparr>status := (if action = ''retire'' then ''retired''
                                              else ''in_inventory''),
                                   current_mileage := cur\<rparr>;
                         removal = \<lparr>sw_date = now_removal, sw_gear_id = gear_id,
                                    component_id = old_id, old_component_id = None,
                                    sw_action = action, mileage = cur, sw_notes = notes\<rparr>;
                         self1 = self\<lparr>components := (components self)(old_id \<mapsto> old'),
                                      component_swaps := component_swaps self @ [removal]\<rparr>
                     in case new_id of
                          None \<Rightarrow> (True, self1)
                        | Some nid \<Rightarrow>
                            if nid = [] then (True, self1)
                            else (case components self1 nid of
                                    None \<Rightarrow> (False, self1)
                                  | Some new_component \<Rightarrow>
                                      if status new_component \<noteq> ''in_inventory''
                                      then (False, self1)
                                      else
                                        (let new' = new_component
                                                      \<lparr>installation_date := now_install,
                                                       c_gear_id := gear_id,
                                                       status := ''active'',
                                                       mileage_at_installation := cur,
                                                       current_mileage := cur\<rparr>;
                                             install = \<lparr>sw_date = now_install,
                                                        sw_gear_id = gear_id,
                                                        component_id = nid,
                                                        old_component_id = Some old_id,
                                                        sw_action = ''install'', mileage = cur,
                                                        sw_notes = notes\<rparr>
                                         in (True,
                                             self1\<lparr>components := (components self1)(nid \<mapsto> new'),
                                                   component_swaps :=
                                                     component_swaps self1 @ [install]\<rparr>))))))"

section \<open>Initial state and example inputs\<close>

text \<open>The containers as \<open>__init__\<close> creates them.\<close>

definition empty_monitor :: monitor where
  "empty_monitor =
     \<lparr>maintenance_records = Map.empty, service_intervals = Map.empty,
      components = Map.empty, component_swaps = []\<rparr>"

text \<open>
  Inputs of the worked examples: a ride of gear \<open>g\<close> over \<open>d\<close> metres that starts at
  instant \<open>t\<close>, and a stored WASH record. The instants of the rides and records are
  small numbers, of which only the order matters.
\<close>

definition ride :: "int \<Rightarrow> string \<Rightarrow> rat \<Rightarrow> datetime \<Rightarrow> activity" where
  "ride i g d t =
     \<lparr>act_id = i, act_gear_id = Some g, act_sport_type = Some ''Ride'',
      act_distance = Some d, act_start_date = Inr t\<rparr>"

definition wash_record :: "string \<Rightarrow> datetime \<Rightarrow> activity list \<Rightarrow> MaintenanceRecord" where
  "wash_record g t snapshot =
     \<lparr>mr_gear_id = g, mr_maintenance_type = WASH, mr_date = t, mr_notes = None,
      mr_distance_at_maintenance = 0, activities_since_last_maintenance = snapshot\<rparr>"

text \<open>
  A component \<open>i\<close> of gear \<open>g\<close> in status \<open>st\<close>, and two stored service intervals
  anchored at 2024-06-01T00:00:00Z and 35 km.
\<close>

definition part :: "string \<Rightarrow> string \<Rightarrow> string \<Rightarrow> Component" where
  "part i g st =
     \<lparr>c_id = i, c_name = ''Chain'', c_brand = ''kmc'', c_model = ''x11'',
      installation_date = 1, c_gear_id = g, status = st, c_notes = None,
      purchase_date = None, purchase_price = None, mileage_at_installation = 0,
      current_mileage = 0\<rparr>"



section \<open>Auxiliary notions for the proofs\<close>

text \<open>
  The usage record after one activity whose start date is \<open>d\<close>, written in one piece,
  and the loop body of \<open>analyze_gear_usage\<close> on an optional mapping, \<open>None\<close> being any
  exception. \<open>forget_totals\<close> blanks the two float totals of a usage record,
  \<open>forget_all\<close> those of a whole mapping, and \<open>step_forgetful\<close> is the loop body
  followed by that.
\<close>

definition usage_after :: "GearUsage \<Rightarrow> activity \<Rightarrow> datetime \<Rightarrow> GearUsage" where
  "usage_after u a d =
     u\<lparr>sport_types := (case act_sport_type a of
                         None \<Rightarrow> sport_types u
                       | Some s \<Rightarrow> if s = [] then sport_types u else insert s (sport_types u)),
       total_distance_m := round_double (total_distance_m u + get_distance a),
       total_distance_km := round_double (round_double (total_distance_m u + get_distance a) / 1000),
       activities_count := Suc (activities_count u),
       first_activity_date := Some (case first_activity_date u of None \<Rightarrow> d | Some f \<Rightarrow> min d f),
       last_activity_date := Some (case last_activity_date u of None \<Rightarrow> d | Some l \<Rightarrow> max l d)\<rparr>"

definition step_opt ::
  "monitor \<Rightarrow> activity \<Rightarrow> (string \<rightharpoonup> GearUsage) option \<Rightarrow> (string \<rightharpoonup> GearUsage) option" where
  "step_opt self a s =
     (case s of
        None \<Rightarrow> None
      | Some gu \<Rightarrow> (case analyze_activity self gu a of Inl e \<Rightarrow> None | Inr gu' \<Rightarrow> Some gu'))"

text \<open>
  The two roundings said without computing them. \<open>is_double_nearest s r\<close>: \<open>r\<close> is
  the binary64 value nearest to \<open>s\<close>, that is, for the exponent \<open>e\<close> of \<open>s\<close>, a multiple
  \<open>k\<close> of the spacing \<open>2 powi (e - 52)\<close> (\<open>2 powi (- 1074)\<close> for a subnormal \<open>s\<close>) at most
  half a spacing away from \<open>s\<close>, with \<open>k\<close> even when \<open>s\<close> lies halfway between two
  multiples. \<open>is_int_nearest y n\<close>: \<open>n\<close> is the integer nearest to \<open>y\<close>, the even one
  of two that are equally near.
\<close>

abbreviation is_double_nearest :: "rat \<Rightarrow> rat \<Rightarrow> bool" where
  "is_double_nearest s r \<equiv>
     (s = 0 \<longrightarrow> r = 0)
     \<and> (\<forall>e. 2 powi e \<le> \<bar>s\<bar> \<and> \<bar>s\<bar> < 2 powi (e + 1) \<longrightarrow>
            \<bar>r - s\<bar> \<le> 2 powi (max e (- 1022) - 53)
            \<and> (\<exists>k. r = of_int k * 2 powi (max e (- 1022) - 52)
                   \<and> (\<bar>r - s\<bar> = 2 powi (max e (- 1022) - 53) \<longrightarrow> even k)))"


definition forget_totals :: "GearUsage \<Rightarrow> GearUsage" where
  "forget_totals u = u\<lparr>total_distance_m := 0, total_distance_km := 0\<rparr>"

definition forget_all :: "(string \<rightharpoonup> GearUsage) \<Rightarrow> (string \<rightharpoonup> GearUsage)" where
  "forget_all gu = (\<lambda>g. map_option forget_totals (gu g))"

definition step_forgetful ::
  "monitor \<Rightarrow> activity \<Rightarrow> (string \<rightharpoonup> GearUsage) option \<Rightarrow> (string \<rightharpoonup> GearUsage) option" where
  "step_forgetful self a s = map_option forget_all (step_opt self a s)"

section \<open>Facts about the helpers\<close>

lemma between_loop_filter:
  "between_loop s e acc xs =
     acc @ filter (\<lambda>a. case act_start_date a of
                          Inl err \<Rightarrow> False
                        | Inr d \<Rightarrow> (case s of None \<Rightarrow> True | Some s' \<Rightarrow> s' \<le> d) \<and> d \<le> e) xs"
  by (induction xs arbitrary: acc) (auto split: sum.splits option.splits)

lemma selector_as_filter:
  "get_activities_between_dates activities s e =
     filter (\<lambda>a. case act_start_date a of
                   Inl err \<Rightarrow> False
                 | Inr d \<Rightarrow> (case s of None \<Rightarrow> True | Some s' \<Rightarrow> s' \<le> d) \<and> d \<le> e) activities"
  by (simp add: get_activities_between_dates_def between_loop_filter)

lemma max_key_from_in: "max_key_from f b xs \<in> set (b # xs)"
  by (induction xs arbitrary: b) auto

lemma max_key_from_best: "f b \<le> f (max_key_from f b xs)"
proof (induction xs arbitrary: b)
  case Nil
  then show ?case by simp
next
  case (Cons y ys)
  have "f b \<le> f (if f b < f y then y else b)" by simp
  also have "\<dots> \<le> f (max_key_from f (if f b < f y then y else b) ys)" by (rule Cons.IH)
  finally show ?case by simp
qed

lemma max_key_from_ge: "x \<in> set (b # xs) \<Longrightarrow> f x \<le> f (max_key_from f b xs)"
proof (induction xs arbitrary: b)
  case Nil
  then show ?case by simp
next
  case (Cons y ys)
  let ?c = "if f b < f y then y else b"
  show ?case
  proof (cases "x \<in> set ys")
    case True
    then show ?thesis using Cons.IH [of ?c] by simp
  next
    case False
    with Cons.prems have "x = b \<or> x = y" by auto
    then have "f x \<le> f ?c" by auto
    also have "\<dots> \<le> f (max_key_from f ?c ys)" by (rule max_key_from_best)
    finally show ?thesis by simp
  qed
qed

lemma max_key_Some:
  "xs \<noteq> [] \<Longrightarrow> \<exists>m. max_key f xs = Some m \<and> m \<in> set xs \<and> f m = Max (f ` set xs)"
proof -
  assume "xs \<noteq> []"
  then obtain b rest where xs: "xs = b # rest" by (cases xs) auto
  let ?m = "max_key_from f b rest"
  have "?m \<in> set xs" using max_key_from_in [of f b rest] xs by simp
  moreover have "\<forall>x \<in> set xs. f x \<le> f ?m" using max_key_from_ge [of _ b rest f] xs by blast
  ultimately have "f ?m = Max (f ` set xs)"
    by (intro Max_eqI [symmetric]) auto
  then show ?thesis using xs \<open>?m \<in> set xs\<close> by (simp add: max_key_def)
qed

lemma del_at_take_drop: "del_at i xs = take i xs @ drop (Suc i) xs"
  by (induction i xs rule: del_at.induct) auto

lemma history_of_named_item:
  "item \<noteq> [] \<Longrightarrow> get_maintenance_history self g (Some item) = []"
  by (simp add: get_maintenance_history_def enum_eq_str_def)

lemma add_service_interval_named_item:
  "item \<noteq> [] \<Longrightarrow> add_service_interval self g item itype v action = (False, self)"
  by (simp add: add_service_interval_def history_of_named_item)

lemma round_half_even_of_int: "round_half_even (of_int n) = n"
  by (simp add: round_half_even_def)

lemma round_half_even_near: "\<bar>of_int (round_half_even y) - y\<bar> \<le> 1 / 2"
proof -
  have "of_int \<lfloor>y\<rfloor> \<le> y" "y < of_int \<lfloor>y\<rfloor> + 1" by linarith+
  then show ?thesis
    unfolding round_half_even_def Let_def by (auto simp: abs_le_iff) 
qed

lemma bitlen_pos_bounds:
  assumes "0 < (p::int)"
  shows "(2::rat) powi (bitlen p - 1) \<le> of_int p" and "of_int p < (2::rat) powi (bitlen p)"
proof -
  have b: "2 ^ nat (bitlen p - 1) \<le> p" "p < 2 ^ nat (bitlen p)"
    using bitlen_bounds [OF assms] by auto
  have ge1: "1 \<le> bitlen p" using assms by (auto simp: bitlen_alt_def)
  have "(2::rat) powi (bitlen p - 1) = of_int (2 ^ nat (bitlen p - 1))"
    using ge1 by (simp add: power_int_nonneg_exp)
  also have "\<dots> \<le> of_int p" using b(1) by (simp only: of_int_le_iff)
  finally show "(2::rat) powi (bitlen p - 1) \<le> of_int p" .
  have "(of_int p :: rat) < of_int (2 ^ nat (bitlen p))" using b(2) by (simp only: of_int_less_iff)
  also have "\<dots> = 2 powi (bitlen p)" using ge1 by (simp add: power_int_nonneg_exp)
  finally show "of_int p < (2::rat) powi (bitlen p)" .
qed

lemma log2_floor_bounds:
  assumes "0 < x"
  shows "2 powi (log2_floor x) \<le> x" and "x < 2 powi (log2_floor x + 1)"
proof -
  obtain p q where pq: "quotient_of x = (p, q)" by (cases "quotient_of x")
  then have q: "0 < q" and x: "x = of_int p / of_int q"
    using quotient_of_denom_pos quotient_of_div by blast+
  have p: "0 < p" using assms q x by (simp add: zero_less_divide_iff)
  let ?k = "bitlen p - bitlen q"
  have lo: "2 powi (?k - 1) < x"
  proof -
    have "(2::rat) powi (?k - 1) = 2 powi (bitlen p - 1) / 2 powi (bitlen q)"
      by (simp add: power_int_diff)
    also have "\<dots> \<le> of_int p / 2 powi (bitlen q)"
      using bitlen_pos_bounds(1) [OF p] by (simp add: divide_right_mono)
    also have "\<dots> < of_int p / of_int q"
      using bitlen_pos_bounds(2) [OF q] p q by (simp add: divide_strict_left_mono)
    finally show ?thesis using x by simp
  qed
  have hi: "x < 2 powi (?k + 1)"
  proof -
    have "x = of_int p / of_int q" by (rule x)
    also have "\<dots> < 2 powi (bitlen p) / of_int q"
      using bitlen_pos_bounds(2) [OF p] q by (simp add: divide_strict_right_mono)
    also have "\<dots> \<le> 2 powi (bitlen p) / 2 powi (bitlen q - 1)"
      using bitlen_pos_bounds(1) [OF q] by (intro divide_left_mono) (auto intro: mult_pos_pos simp: q)
    also have "\<dots> = 2 powi (bitlen p - (bitlen q - 1))"
      by (rule power_int_diff [symmetric]) simp
    also have "bitlen p - (bitlen q - 1) = ?k + 1" by simp
    finally show ?thesis .
  qed
  have k: "log2_floor x = (if 2 powi ?k \<le> x then ?k else ?k - 1)"
    by (simp add: log2_floor_def pq Let_def)
  show "2 powi (log2_floor x) \<le> x" using k lo by (auto simp: less_imp_le)
  show "x < 2 powi (log2_floor x + 1)" using k hi by (auto simp: not_le)
qed

lemma log2_floor_unique:
  assumes "2 powi k \<le> x" and "x < 2 powi (k + 1)"
  shows "log2_floor x = k"
proof -
  have pos: "0 < x" using assms(1) by (meson less_le_trans zero_less_numeral zero_less_power_int)
  have a: "(2::rat) powi (log2_floor x) < 2 powi (k + 1)"
    using log2_floor_bounds(1) [OF pos] assms(2) by simp
  have b: "(2::rat) powi k < 2 powi (log2_floor x + 1)"
    using log2_floor_bounds(2) [OF pos] assms(1) by simp
  have "log2_floor x < k + 1"
  proof (rule ccontr)
    assume "\<not> log2_floor x < k + 1"
    then have "(2::rat) powi (k + 1) \<le> 2 powi (log2_floor x)"
      by (intro power_int_increasing) auto
    then show False using a by simp
  qed
  moreover have "k < log2_floor x + 1"
  proof (rule ccontr)
    assume "\<not> k < log2_floor x + 1"
    then have "(2::rat) powi (log2_floor x + 1) \<le> 2 powi k"
      by (intro power_int_increasing) auto
    then show False using b by simp
  qed
  ultimately show ?thesis by simp
qed


lemma round_double_eval:
  assumes "2 powi k \<le> \<bar>x\<bar>" and "\<bar>x\<bar> < 2 powi (k + 1)"
  shows "round_double x =
           of_int (round_half_even (x / 2 powi (max k (- 1022) - 52))) * 2 powi (max k (- 1022) - 52)"
proof -
  have "0 < \<bar>x\<bar>" using assms(1) by (meson less_le_trans zero_less_numeral zero_less_power_int)
  then have "x \<noteq> 0" by simp
  then show ?thesis
    by (simp add: round_double_def Let_def log2_floor_unique [OF assms])
qed

lemma round_double_half_ulp:
  assumes "x \<noteq> 0"
  shows "\<bar>round_double x - x\<bar> \<le> 2 powi (max (log2_floor \<bar>x\<bar>) (- 1022) - 53)"
proof -
  let ?E = "max (log2_floor \<bar>x\<bar>) (- 1022)"
  let ?u = "(2::rat) powi (?E - 52)"
  have u: "0 < ?u" by (simp add: zero_less_power_int)
  have "round_double x - x = (of_int (round_half_even (x / ?u)) - x / ?u) * ?u"
    using assms u by (simp add: round_double_def Let_def field_simps)
  then have "\<bar>round_double x - x\<bar> = \<bar>of_int (round_half_even (x / ?u)) - x / ?u\<bar> * ?u"
    using u by (simp add: abs_mult)
  also have "\<dots> \<le> (1 / 2) * ?u"
    using round_half_even_near [of "x / ?u"] u by (intro mult_right_mono) auto
  also have "\<dots> = 2 powi (?E - 52 - 1)"
    by (subst power_int_diff [of 2 "?E - 52" 1]) auto
  also have "?E - 52 - 1 = ?E - 53" by simp
  finally show ?thesis .
qed


lemma round_double_of_int:
  assumes "\<bar>n\<bar> < 2 ^ 53"
  shows "round_double (of_int n) = of_int n"
proof (cases "n = 0")
  case True
  then show ?thesis by (simp add: round_double_def)
next
  case False
  let ?x = "of_int n :: rat"
  let ?e = "log2_floor \<bar>?x\<bar>"
  have pos: "0 < \<bar>?x\<bar>" using False by simp
  have one: "1 \<le> \<bar>?x\<bar>"
  proof -
    have "1 \<le> \<bar>n\<bar>" using False by simp
    then have "(of_int 1 :: rat) \<le> of_int \<bar>n\<bar>" by (simp only: of_int_le_iff)
    then show ?thesis by simp
  qed
  have lt: "\<bar>?x\<bar> < 2 powi 53"
  proof -
    have "\<bar>?x\<bar> = of_int \<bar>n\<bar>" by simp
    also have "\<dots> < of_int (2 ^ 53)" using assms by (simp only: of_int_less_iff)
    finally show ?thesis by simp
  qed
  have e0: "0 \<le> ?e"
  proof (rule ccontr)
    assume "\<not> 0 \<le> ?e"
    then have "(2::rat) powi (?e + 1) \<le> 2 powi 0" by (intro power_int_increasing) auto
    then show False using log2_floor_bounds(2) [OF pos] one by simp
  qed
  have e52: "?e \<le> 52"
  proof (rule ccontr)
    assume "\<not> ?e \<le> 52"
    then have "(2::rat) powi 53 \<le> 2 powi ?e" by (intro power_int_increasing) auto
    then show False using log2_floor_bounds(1) [OF pos] lt by simp
  qed
  define m where "m = nat (52 - ?e)"
  have E: "max ?e (- 1022) = ?e" using e0 by simp
  have u: "(2::rat) powi (?e - 52) = 1 / 2 ^ m"
  proof -
    have "?e - 52 = - int m" using e52 by (simp add: m_def)
    then show ?thesis by (simp add: power_int_minus_divide)
  qed
  have "?x / (2 powi (?e - 52)) = of_int (n * 2 ^ m)" by (simp add: u)
  then have "round_half_even (?x / (2 powi (?e - 52))) = n * 2 ^ m"
    by (simp only: round_half_even_of_int)
  then show ?thesis
    using False by (simp add: round_double_def Let_def E u)
qed

lemma round_double_numeral [simp]:
  "(numeral k :: int) < 2 ^ 53 \<Longrightarrow> round_double (numeral k) = numeral k"
  using round_double_of_int [of "numeral k"] by simp

lemma round_double_0 [simp]: "round_double 0 = 0"
  by (simp add: round_double_def)

lemma round_half_even_tie:
  assumes "\<bar>of_int (round_half_even y) - y\<bar> = 1 / 2"
  shows "even (round_half_even y)"
proof -
  have b: "of_int \<lfloor>y\<rfloor> \<le> y" "y < of_int \<lfloor>y\<rfloor> + 1" by linarith+
  show ?thesis
  proof (cases "y - of_int \<lfloor>y\<rfloor> < 1 / 2")
    case True
    then have "round_half_even y = \<lfloor>y\<rfloor>" by (simp add: round_half_even_def Let_def)
    then show ?thesis using assms True b by simp
  next
    case False
    show ?thesis
    proof (cases "1 / 2 < y - of_int \<lfloor>y\<rfloor>")
      case True
      then have "round_half_even y = \<lfloor>y\<rfloor> + 1" using False by (simp add: round_half_even_def Let_def)
      then show ?thesis using assms True b by simp
    next
      case nt: False
      then show ?thesis using False by (auto simp: round_half_even_def Let_def)
    qed
  qed
qed


lemma round_double_grid:
  assumes "2 powi e \<le> \<bar>x\<bar>" and "\<bar>x\<bar> < 2 powi (e + 1)"
  shows "\<bar>round_double x - x\<bar> \<le> 2 powi (max e (- 1022) - 53)
       \<and> (\<exists>k. round_double x = of_int k * 2 powi (max e (- 1022) - 52)
              \<and> (\<bar>round_double x - x\<bar> = 2 powi (max e (- 1022) - 53) \<longrightarrow> even k))"
proof -
  have "0 < \<bar>x\<bar>" using assms(1) by (meson less_le_trans zero_less_numeral zero_less_power_int)
  then have x0: "x \<noteq> 0" by simp
  have le: "log2_floor \<bar>x\<bar> = e" by (rule log2_floor_unique [OF assms])
  define u :: rat where "u = 2 powi (max e (- 1022) - 52)"
  define k where "k = round_half_even (x / u)"
  have u: "0 < u" by (simp add: u_def zero_less_power_int)
  have half: "(2::rat) powi (max e (- 1022) - 53) = u / 2"
  proof -
    have "(2::rat) powi (max e (- 1022) - 52 - 1) = 2 powi (max e (- 1022) - 52) / 2 powi 1"
      by (rule power_int_diff) simp
    moreover have "max e (- 1022) - 52 - 1 = max e (- 1022) - 53" by simp
    ultimately show ?thesis by (simp add: u_def)
  qed
  have rd: "round_double x = of_int k * u"
    unfolding k_def u_def by (rule round_double_eval [OF assms])
  have bound: "\<bar>round_double x - x\<bar> \<le> 2 powi (max e (- 1022) - 53)"
    using round_double_half_ulp [OF x0] le by simp
  have tie: "even k" if "\<bar>round_double x - x\<bar> = 2 powi (max e (- 1022) - 53)"
  proof -
    have "of_int k * u - x = (of_int k - x / u) * u" using u by (simp add: field_simps)
    then have "\<bar>of_int k * u - x\<bar> = \<bar>of_int k - x / u\<bar> * u" using u by (simp add: abs_mult)
    then have "\<bar>of_int k - x / u\<bar> * u = u / 2" using that rd half by simp
    then have "\<bar>of_int k - x / u\<bar> = 1 / 2" using u by (simp add: field_simps)
    then show ?thesis unfolding k_def by (rule round_half_even_tie)
  qed
  show ?thesis using bound rd tie unfolding u_def by blast
qed

lemma round_double_nearest: "is_double_nearest x (round_double x)"
  using round_double_grid [of _ x] by (auto simp: round_double_def)






lemma next_service_distance:
  assumes "last_service_date iv = Some d" and "interval_type iv \<noteq> ''time''"
    and "last_service_distance iv = Some x" and "interval_value iv = v"
  shows "\<exists>r. is_double_nearest (x + v) r
           \<and> (\<forall>n. x + v = of_int n \<and> \<bar>n\<bar> < 2 ^ 53 \<longrightarrow> r = of_int n)
           \<and> next_service off iv =
                 Inr (Some (if 2 ^ 1024 \<le> \<bar>r\<bar> then DueInfinite (0 < r) else DueDistance r))"
proof -
  define r where "r = round_double (x + v)"
  have "is_double_nearest (x + v) r" unfolding r_def by (rule round_double_nearest)
  moreover have "\<forall>n. x + v = of_int n \<and> \<bar>n\<bar> < 2 ^ 53 \<longrightarrow> r = of_int n"
    unfolding r_def using round_double_of_int by auto
  moreover have "next_service off iv =
      Inr (Some (if 2 ^ 1024 \<le> \<bar>r\<bar> then DueInfinite (0 < r) else DueDistance r))"
    using assms unfolding r_def next_service_def float_overflows_def Let_def
    by (simp del: power_numeral)
  ultimately show ?thesis by blast
qed


lemma analyze_loop_total_iff:
  "(\<exists>r. analyze_loop self gu acts = Inr r) \<longleftrightarrow>
   (\<forall>a \<in> set acts. (\<exists>g. act_gear_id a = Some g \<and> g \<noteq> []) \<longrightarrow> (\<exists>d. act_start_date a = Inr d))"
proof (induction acts arbitrary: gu)
  case Nil
  then show ?case by simp
next
  case (Cons a rest)
  show ?case
  proof (cases "\<exists>g. act_gear_id a = Some g \<and> g \<noteq> []")
    case False
    then have "analyze_activity self gu a = Inr gu"
      by (auto simp: analyze_activity_def split: option.splits)
    then show ?thesis using Cons.IH [of gu] False by auto
  next
    case True
    then obtain g where g: "act_gear_id a = Some g" "g \<noteq> []" by blast
    show ?thesis
    proof (cases "act_start_date a")
      case (Inl e)
      then have "analyze_activity self gu a = Inl e"
        using g by (simp add: analyze_activity_def update_usage_def Let_def)
      then show ?thesis using Inl g by auto
    next
      case (Inr d)
      then obtain gu' where "analyze_activity self gu a = Inr gu'"
        using g by (simp add: analyze_activity_def update_usage_def Let_def)
      then show ?thesis using Inr Cons.IH [of gu'] by auto
    qed
  qed
qed

lemma update_usage_eq:
  "update_usage u a =
     (case act_start_date a of Inl e \<Rightarrow> Inl e | Inr d \<Rightarrow> Inr (usage_after u a d))"
  unfolding update_usage_def usage_after_def Let_def
  by (cases "act_start_date a"; cases "act_sport_type a"; cases "first_activity_date u";
      cases "last_activity_date u") (auto simp: min_def max_def)

lemma forget_totals_usage_after:
  "forget_totals (usage_after (forget_totals u) a d) = forget_totals (usage_after u a d)"
  by (cases "act_sport_type a") (simp_all add: forget_totals_def usage_after_def)

lemma forget_totals_commute:
  "forget_totals (usage_after (usage_after u a d) b e)
     = forget_totals (usage_after (usage_after u b e) a d)"
  unfolding usage_after_def forget_totals_def
  by (cases "act_sport_type a"; cases "act_sport_type b"; cases "first_activity_date u";
      cases "last_activity_date u")
     (auto simp: insert_commute min.left_commute max.left_commute min.commute max.commute)

lemma forget_totals_fields:
  assumes "forget_totals u' = forget_totals u"
  shows "gu_gear_id u' = gu_gear_id u \<and> sport_types u' = sport_types u
       \<and> activities_count u' = activities_count u
       \<and> first_activity_date u' = first_activity_date u
       \<and> last_activity_date u' = last_activity_date u
       \<and> maintenance_history u' = maintenance_history u"
  using assms by (cases u; cases u') (simp add: forget_totals_def)

lemma forget_all_upd: "forget_all (gu(g \<mapsto> u)) = (forget_all gu)(g \<mapsto> forget_totals u)"
  by (auto simp: forget_all_def fun_eq_iff)

lemma forget_totals_idem: "forget_totals (forget_totals u) = forget_totals u"
  by (simp add: forget_totals_def)

lemma forget_all_idem: "forget_all (forget_all gu) = forget_all gu"
proof
  fix g
  show "forget_all (forget_all gu) g = forget_all gu g"
    by (cases "gu g") (simp_all add: forget_all_def forget_totals_idem)
qed

lemma analyze_activity_eq:
  "analyze_activity self gu a =
     (case act_gear_id a of
        None \<Rightarrow> Inr gu
      | Some g \<Rightarrow>
          if g = [] then Inr gu
          else (case act_start_date a of
                  Inl e \<Rightarrow> Inl e
                | Inr d \<Rightarrow>
                    Inr (gu(g \<mapsto> usage_after
                                    (case gu g of None \<Rightarrow> new_usage self g | Some u \<Rightarrow> u) a d))))"
  by (simp add: analyze_activity_def update_usage_eq split: option.splits sum.splits)

lemma step_opt_None [simp]: "step_opt self a None = None"
  by (simp add: step_opt_def)

lemma step_opt_skip:
  "\<not> (\<exists>g. act_gear_id a = Some g \<and> g \<noteq> []) \<Longrightarrow> step_opt self a s = s"
  by (cases s) (auto simp: step_opt_def analyze_activity_eq split: option.splits)

lemma step_opt_fail:
  "act_gear_id a = Some g \<Longrightarrow> g \<noteq> [] \<Longrightarrow> act_start_date a = Inl e \<Longrightarrow>
   step_opt self a s = None"
  by (cases s) (auto simp: step_opt_def analyze_activity_eq)

lemma step_opt_ok:
  "act_gear_id a = Some g \<Longrightarrow> g \<noteq> [] \<Longrightarrow> act_start_date a = Inr d \<Longrightarrow>
   step_opt self a (Some gu) =
     Some (gu(g \<mapsto> usage_after (case gu g of None \<Rightarrow> new_usage self g | Some u \<Rightarrow> u) a d))"
  by (simp add: step_opt_def analyze_activity_eq)

lemma step_forgetful_absorb:
  "step_forgetful self a (map_option forget_all s) = step_forgetful self a s"
proof (cases s)
  case None
  then show ?thesis by (simp add: step_forgetful_def)
next
  case (Some gu)
  show ?thesis
  proof (cases "\<exists>g. act_gear_id a = Some g \<and> g \<noteq> []")
    case False
    then show ?thesis using Some by (simp add: step_forgetful_def step_opt_skip forget_all_idem)
  next
    case True
    then obtain g where g: "act_gear_id a = Some g" "g \<noteq> []" by blast
    show ?thesis
    proof (cases "act_start_date a")
      case (Inl e)
      then show ?thesis using g by (simp add: step_forgetful_def step_opt_fail)
    next
      case (Inr d)
      show ?thesis
      proof (cases "gu g")
        case None
        then have "forget_all gu g = None" by (simp add: forget_all_def)
        then show ?thesis
          using Some g Inr None
          by (simp add: step_forgetful_def step_opt_ok forget_all_upd forget_all_idem)
      next
        case (Some u)
        then have "forget_all gu g = Some (forget_totals u)" by (simp add: forget_all_def)
        then show ?thesis
          using \<open>s = Some gu\<close> g Inr Some
          by (simp add: step_forgetful_def step_opt_ok forget_all_upd forget_all_idem
                forget_totals_usage_after)
      qed
    qed
  qed
qed

lemma step_opt_commute_forgetful:
  "map_option forget_all (step_opt self a (step_opt self b s))
     = map_option forget_all (step_opt self b (step_opt self a s))"
proof (cases s)
  case None
  then show ?thesis by simp
next
  case (Some gu)
  show ?thesis
  proof (cases "\<exists>g. act_gear_id a = Some g \<and> g \<noteq> []")
    case False
    then show ?thesis by (simp add: step_opt_skip)
  next
    case True
    then obtain ga where ga: "act_gear_id a = Some ga" "ga \<noteq> []" by blast
    show ?thesis
    proof (cases "\<exists>g. act_gear_id b = Some g \<and> g \<noteq> []")
      case False
      then show ?thesis by (simp add: step_opt_skip)
    next
      case True
      then obtain gb where gb: "act_gear_id b = Some gb" "gb \<noteq> []" by blast
      show ?thesis
      proof (cases "act_start_date a")
        case (Inl e)
        then show ?thesis using ga by (simp add: step_opt_fail)
      next
        case da: (Inr d)
        show ?thesis
        proof (cases "act_start_date b")
          case (Inl e)
          then show ?thesis using gb by (simp add: step_opt_fail)
        next
          case db: (Inr e)
          show ?thesis
          proof (cases "ga = gb")
            case True
            then show ?thesis
              using Some ga gb da db
              by (simp add: step_opt_ok forget_all_upd forget_totals_commute)
          next
            case False
            then show ?thesis
              using Some ga gb da db
              by (simp add: step_opt_ok fun_upd_twist)
          qed
        qed
      qed
    qed
  qed
qed

lemma step_forgetful_commute:
  "step_forgetful self a (step_forgetful self b t) = step_forgetful self b (step_forgetful self a t)"
proof -
  have "step_forgetful self a (step_forgetful self b t)
          = map_option forget_all (step_opt self a (step_opt self b t))"
    using step_forgetful_absorb [of self a "step_opt self b t"] by (simp add: step_forgetful_def)
  also have "\<dots> = map_option forget_all (step_opt self b (step_opt self a t))"
    by (rule step_opt_commute_forgetful)
  also have "\<dots> = step_forgetful self b (step_forgetful self a t)"
    using step_forgetful_absorb [of self b "step_opt self a t"] by (simp add: step_forgetful_def)
  finally show ?thesis .
qed

lemma fold_step_forgetful:
  "map_option forget_all (fold (step_opt self) xs s)
     = fold (step_forgetful self) xs (map_option forget_all s)"
proof (induction xs arbitrary: s)
  case Nil
  then show ?case by simp
next
  case (Cons a rest)
  have "map_option forget_all (fold (step_opt self) (a # rest) s)
          = fold (step_forgetful self) rest (map_option forget_all (step_opt self a s))"
    using Cons.IH [of "step_opt self a s"] by simp
  also have "map_option forget_all (step_opt self a s)
          = step_forgetful self a (map_option forget_all s)"
    by (simp add: step_forgetful_absorb) (simp add: step_forgetful_def)
  finally show ?case by simp
qed

lemma fold_step_opt:
  "fold (step_opt self) xs (Some gu) =
     (case analyze_loop self gu xs of Inl e \<Rightarrow> None | Inr r \<Rightarrow> Some r)"
proof (induction xs arbitrary: gu)
  case Nil
  then show ?case by simp
next
  case (Cons a rest)
  show ?case
  proof (cases "analyze_activity self gu a")
    case (Inl e)
    then have "step_opt self a (Some gu) = None" by (simp add: step_opt_def)
    moreover have "fold (step_opt self) rest None = None" by (induction rest) simp_all
    ultimately show ?thesis using Inl by simp
  next
    case (Inr gu')
    then have "step_opt self a (Some gu) = Some gu'" by (simp add: step_opt_def)
    then show ?thesis using Inr Cons.IH [of gu'] by simp
  qed
qed

lemma analyze_loop_permute:
  assumes "mset xs = mset ys" and "analyze_loop self gu xs = Inr r"
  shows "\<exists>r'. analyze_loop self gu ys = Inr r' \<and> forget_all r' = forget_all r"
proof -
  have "fold (step_forgetful self) xs = fold (step_forgetful self) ys"
    by (rule fold_multiset_equiv [OF _ assms(1)]) (simp add: fun_eq_iff step_forgetful_commute)
  then have "fold (step_forgetful self) ys (Some (forget_all gu))
               = fold (step_forgetful self) xs (Some (forget_all gu))"
    by simp
  also have "\<dots> = map_option forget_all (fold (step_opt self) xs (Some gu))"
    by (simp add: fold_step_forgetful)
  also have "\<dots> = Some (forget_all r)"
    using assms(2) by (simp add: fold_step_opt)
  finally have "map_option forget_all (fold (step_opt self) ys (Some gu)) = Some (forget_all r)"
    by (simp add: fold_step_forgetful)
  then obtain r' where "fold (step_opt self) ys (Some gu) = Some r'"
      and "forget_all r' = forget_all r"
    by auto
  then show ?thesis by (auto simp: fold_step_opt split: sum.splits)
qed

lemma analyze_loop_skip:
  "analyze_loop self gu [a \<leftarrow> xs. \<exists>g. act_gear_id a = Some g \<and> g \<noteq> []] = analyze_loop self gu xs"
proof (induction xs arbitrary: gu)
  case Nil
  then show ?case by simp
next
  case (Cons a rest)
  show ?case
  proof (cases "\<exists>g. act_gear_id a = Some g \<and> g \<noteq> []")
    case True
    then show ?thesis using Cons.IH by (simp split: sum.splits)
  next
    case False
    then have "analyze_activity self gu a = Inr gu"
      by (auto simp: analyze_activity_eq split: option.splits)
    then show ?thesis using False Cons.IH by simp
  qed
qed

lemma analyze_loop_no_empty_key:
  "analyze_loop self gu xs = Inr r \<Longrightarrow> gu [] = None \<Longrightarrow> r [] = None"
proof (induction xs arbitrary: gu)
  case Nil
  then show ?case by simp
next
  case (Cons a rest)
  from Cons.prems(1) obtain gu' where step: "analyze_activity self gu a = Inr gu'"
    and rest: "analyze_loop self gu' rest = Inr r"
    by (auto split: sum.splits)
  have "gu' [] = None"
    using step Cons.prems(2)
    by (auto simp: analyze_activity_eq split: option.splits if_splits sum.splits)
  then show ?case using Cons.IH [OF rest] by simp
qed

lemma analyze_loop_totals:
  assumes "analyze_loop self gu xs = Inr r" and "r g = Some u" and "g \<noteq> []"
  shows "total_distance_m u =
           foldl (\<lambda>t a. round_double (t + get_distance a))
             (case gu g of None \<Rightarrow> 0 | Some u0 \<Rightarrow> total_distance_m u0)
             [a \<leftarrow> xs. act_gear_id a = Some g]"
  using assms(1,2)
proof (induction xs arbitrary: gu)
  case Nil
  then show ?case by simp
next
  case (Cons a rest)
  from Cons.prems(1) obtain gu' where step: "analyze_activity self gu a = Inr gu'"
    and rest: "analyze_loop self gu' rest = Inr r"
    by (auto split: sum.splits)
  note IH = Cons.IH [OF rest Cons.prems(2)]
  show ?case
  proof (cases "act_gear_id a = Some g")
    case True
    then obtain d where d: "act_start_date a = Inr d"
      and gu': "gu' = gu(g \<mapsto> usage_after (case gu g of None \<Rightarrow> new_usage self g | Some u0 \<Rightarrow> u0) a d)"
      using step assms(3) by (auto simp: analyze_activity_eq split: sum.splits)
    have "(case gu' g of None \<Rightarrow> 0 | Some u0 \<Rightarrow> total_distance_m u0)
            = round_double ((case gu g of None \<Rightarrow> 0 | Some u0 \<Rightarrow> total_distance_m u0)
                            + get_distance a)"
      unfolding gu' by (cases "gu g") (simp_all add: usage_after_def new_usage_def)
    then show ?thesis using IH True by simp
  next
    case False
    then have "gu' g = gu g"
      using step by (auto simp: analyze_activity_eq split: option.splits if_splits sum.splits)
    then show ?thesis using IH False by simp
  qed
qed

lemma analyze_loop_km:
  assumes "analyze_loop self gu xs = Inr r"
    and "\<forall>g u. gu g = Some u \<longrightarrow> total_distance_km u = round_double (total_distance_m u / 1000)"
    and "r g = Some u"
  shows "total_distance_km u = round_double (total_distance_m u / 1000)"
  using assms
proof (induction xs arbitrary: gu)
  case Nil
  then show ?case by simp
next
  case (Cons a rest)
  from Cons.prems(1) obtain gu' where step: "analyze_activity self gu a = Inr gu'"
    and rest: "analyze_loop self gu' rest = Inr r"
    by (auto split: sum.splits)
  have "\<forall>g u. gu' g = Some u \<longrightarrow> total_distance_km u = round_double (total_distance_m u / 1000)"
    using step Cons.prems(2)
    by (auto simp: analyze_activity_eq usage_after_def split: option.splits if_splits sum.splits)
  then show ?case using Cons.IH [OF rest _ Cons.prems(3)] by blast
qed

section \<open>The claims\<close>


text \<open>
  C5. The Window Selector returns, in input order, exactly the activities whose start
  date parses and lies between the bounds, both inclusive, a missing start bound
  admitting every date. An activity whose start date raises is left out, and the
  selection itself never fails.
\<close>

theorem window_selector_exact:
  "get_activities_between_dates activities s e =
     filter (\<lambda>a. case act_start_date a of
                   Inl err \<Rightarrow> False
                 | Inr d \<Rightarrow> (case s of None \<Rightarrow> True | Some s' \<Rightarrow> s' \<le> d) \<and> d \<le> e) activities"
  by (rule selector_as_filter)

text \<open>
  C1, as the code has it. When the gear already has a record of the same type,
  \<open>record_maintenance\<close> appends one record whose snapshot is exactly the fetched
  activities of that gear whose start date parses and lies in the closed window from
  the latest date of the earlier records of that type to now. Both ends are inclusive.
\<close>

theorem record_maintenance_snapshot:
  assumes "maintenance_records self g = Some rs"
    and "[r \<leftarrow> rs. mr_maintenance_type r = t] \<noteq> []"
  shows "\<exists>new. maintenance_records (snd (record_maintenance now acts self g t notes)) g
                 = Some (rs @ [new])
           \<and> mr_date new = now \<and> mr_maintenance_type new = t \<and> mr_gear_id new = g
           \<and> activities_since_last_maintenance new =
               [a \<leftarrow> acts. act_gear_id a = Some g \<and>
                  (case act_start_date a of
                     Inl e \<Rightarrow> False
                   | Inr d \<Rightarrow> Max (mr_date ` {r \<in> set rs. mr_maintenance_type r = t}) \<le> d
                              \<and> d \<le> now)]"
proof -
  let ?same = "[r \<leftarrow> rs. mr_maintenance_type r = t]"
  obtain p where p: "max_key mr_date ?same = Some p"
    and pmax: "mr_date p = Max (mr_date ` set ?same)"
    using max_key_Some [OF assms(2), of mr_date] by blast
  have set_same: "set ?same = {r \<in> set rs. mr_maintenance_type r = t}" by auto
  have sel: "get_activities_between_dates acts (Some (mr_date p)) now =
      [a \<leftarrow> acts. case act_start_date a of Inl e \<Rightarrow> False | Inr d \<Rightarrow> mr_date p \<le> d \<and> d \<le> now]"
    by (simp add: selector_as_filter cong: sum.case_cong)
  have "snd (record_maintenance now acts self g t notes) =
      self\<lparr>maintenance_records := (maintenance_records self)(g \<mapsto> rs @
        [\<lparr>mr_gear_id = g, mr_maintenance_type = t, mr_date = now, mr_notes = notes,
          mr_distance_at_maintenance = 0,
          activities_since_last_maintenance =
            [a \<leftarrow> get_activities_between_dates acts (Some (mr_date p)) now.
               act_gear_id a = Some g]\<rparr>])\<rparr>"
    using assms(1) p by (simp add: record_maintenance_def)
  then show ?thesis
    unfolding sel using pmax set_same
    by (auto intro!: filter_cong split: sum.splits)
qed

text \<open>
  The theorem at a gear washed on day 6 and washed again on day 10: of the rides on
  days 1, 8 and 9 the new snapshot holds the ride of day 8, the ride of day 9 being of
  another gear.
\<close>

theorem record_maintenance_snapshot_witness:
  "maintenance_records
     (empty_monitor\<lparr>maintenance_records := [''g1'' \<mapsto> [wash_record ''g1'' 6 []]]\<rparr>) ''g1''
     = Some [wash_record ''g1'' 6 []]
   \<and> [r \<leftarrow> [wash_record ''g1'' 6 []]. mr_maintenance_type r = WASH] \<noteq> []
   \<and> activities_since_last_maintenance
       (last (the (maintenance_records
          (snd (record_maintenance 10
                  [ride 1 ''g1'' 10000 1, ride 4 ''g1'' 15000 8, ride 5 ''g2'' 7000 9]
                  (empty_monitor\<lparr>maintenance_records := [''g1'' \<mapsto> [wash_record ''g1'' 6 []]]\<rparr>)
                  ''g1'' WASH None)) ''g1'')))
     = [ride 4 ''g1'' 15000 8]"
  using record_maintenance_snapshot
    [of "empty_monitor\<lparr>maintenance_records := [''g1'' \<mapsto> [wash_record ''g1'' 6 []]]\<rparr>"
        "''g1''" "[wash_record ''g1'' 6 []]" WASH 10
        "[ride 1 ''g1'' 10000 1, ride 4 ''g1'' 15000 8, ride 5 ''g2'' 7000 9]" None]
  by (auto simp: empty_monitor_def wash_record_def ride_def)

text \<open>
  C1 as stated fails: a ride that starts at the very instant of the earlier wash
  (day 6) is in the snapshot of the next wash, although the stated window excludes
  the earlier record's date.
\<close>

theorem record_maintenance_boundary_counterexample:
  "activities_since_last_maintenance
     (last (the (maintenance_records
        (snd (record_maintenance 10 [ride 4 ''g1'' 15000 6]
                (empty_monitor\<lparr>maintenance_records := [''g1'' \<mapsto> [wash_record ''g1'' 6 []]]\<rparr>)
                ''g1'' WASH None)) ''g1'')))
   = [ride 4 ''g1'' 15000 6]"
  by (simp add: record_maintenance_def get_activities_between_dates_def max_key_def
        empty_monitor_def wash_record_def ride_def)

text \<open>
  C8. \<open>delete_maintenance_record\<close> fails, changing nothing, exactly when the gear has
  no records or the index is outside 1 .. len(records); otherwise it removes the record
  at that position of the stored list and keeps every other record in place. The lists
  of the other gears are never touched.
\<close>

theorem delete_maintenance_record_spec:
  "delete_maintenance_record self g i =
     (let recs = (case maintenance_records self g of None \<Rightarrow> [] | Some rs \<Rightarrow> rs)
      in if recs = [] \<or> i < 1 \<or> int (length recs) < i then (False, self)
         else (True, self\<lparr>maintenance_records :=
                 (maintenance_records self)(g \<mapsto> take (nat (i - 1)) recs @ drop (nat i) recs)\<rparr>))
   \<and> (\<forall>g'. g' \<noteq> g \<longrightarrow>
         maintenance_records (snd (delete_maintenance_record self g i)) g'
           = maintenance_records self g')"
proof -
  have "Suc (nat (i - 1)) = nat i" if "1 \<le> i" using that by simp
  then show ?thesis
    by (auto simp: delete_maintenance_record_def del_at_take_drop Let_def split: option.splits)
qed

text \<open>
  The theorem at a gear whose stored records are dated 9, 2, 5: index 2 removes the
  record dated 2, the second of the stored order (in date order it would be the first),
  and the other gear keeps its record.
\<close>

theorem delete_maintenance_record_spec_witness:
  "delete_maintenance_record
     (empty_monitor\<lparr>maintenance_records :=
        [''g1'' \<mapsto> [wash_record ''g1'' 9 [], wash_record ''g1'' 2 [], wash_record ''g1'' 5 []],
         ''g2'' \<mapsto> [wash_record ''g2'' 3 []]]\<rparr>) ''g1'' 2
   = (True, empty_monitor\<lparr>maintenance_records :=
        [''g1'' \<mapsto> [wash_record ''g1'' 9 [], wash_record ''g1'' 5 []],
         ''g2'' \<mapsto> [wash_record ''g2'' 3 []]]\<rparr>)
   \<and> ''g2'' \<noteq> ''g1''
   \<and> maintenance_records (snd (delete_maintenance_record
       (empty_monitor\<lparr>maintenance_records :=
        [''g1'' \<mapsto> [wash_record ''g1'' 9 [], wash_record ''g1'' 2 [], wash_record ''g1'' 5 []],
         ''g2'' \<mapsto> [wash_record ''g2'' 3 []]]\<rparr>) ''g1'' 2)) ''g2''
     = Some [wash_record ''g2'' 3 []]"
  using delete_maintenance_record_spec
    [of "empty_monitor\<lparr>maintenance_records :=
        [''g1'' \<mapsto> [wash_record ''g1'' 9 [], wash_record ''g1'' 2 [], wash_record ''g1'' 5 []],
         ''g2'' \<mapsto> [wash_record ''g2'' 3 []]]\<rparr>" "''g1''" 2]
  by (simp add: empty_monitor_def fun_upd_twist)

text \<open>
  C2, where the code departs from it. Gear g1 has a WASH record (day 6, 35 km of rides),
  yet \<open>add_service_interval\<close> for the item WASH returns False and stores nothing: the
  history filter compares the record's \<open>MaintenanceType\<close> with the item string, which is
  never equal, so the history of every named item is empty.
\<close>

theorem add_service_interval_after_wash_fails:
  "add_service_interval
     (empty_monitor\<lparr>maintenance_records :=
        [''g1'' \<mapsto> [wash_record ''g1'' 6
                        [ride 1 ''g1'' 10000 1, ride 2 ''g1'' 20000 3, ride 3 ''g1'' 5000 5]]]\<rparr>)
     ''g1'' ''WASH'' ''distance'' 500 ''replace''
   = (False,
      empty_monitor\<lparr>maintenance_records :=
        [''g1'' \<mapsto> [wash_record ''g1'' 6
                        [ride 1 ''g1'' 10000 1, ride 2 ''g1'' 20000 3, ride 3 ''g1'' 5000 5]]]\<rparr>)"
  by (simp add: add_service_interval_def get_maintenance_history_def enum_eq_str_def
        empty_monitor_def)

text \<open>
  C3, where the code departs from it. Component c1 is active on g1 and the new
  component c9 does not exist: \<open>swap_component\<close> returns False, but c1 is left in
  inventory and the ledger holds the removal.
\<close>

theorem swap_component_failed_install_keeps_removal:
  "fst (swap_component 10 10 []
          (empty_monitor\<lparr>components := [''c1'' \<mapsto> part ''c1'' ''g1'' ''active'']\<rparr>)
          ''g1'' ''c1'' (Some ''c9'') ''remove'' None) = False
   \<and> map_option status
       (components
          (snd (swap_component 10 10 []
                  (empty_monitor\<lparr>components := [''c1'' \<mapsto> part ''c1'' ''g1'' ''active'']\<rparr>)
                  ''g1'' ''c1'' (Some ''c9'') ''remove'' None)) ''c1'') = Some ''in_inventory''
   \<and> map sw_action
       (component_swaps
          (snd (swap_component 10 10 []
                  (empty_monitor\<lparr>components := [''c1'' \<mapsto> part ''c1'' ''g1'' ''active'']\<rparr>)
                  ''g1'' ''c1'' (Some ''c9'') ''remove'' None))) = [''remove'']"
  by (simp add: swap_component_def analyze_gear_usage_def empty_monitor_def part_def)

text \<open>
  The same happens when the new component exists but is not in inventory, as when it
  was just created by \<open>add_component\<close>, which creates it active.
\<close>

lemma swap_component_active_replacement_keeps_removal:
  "fst (swap_component 10 10 []
          (empty_monitor\<lparr>components := [''c1'' \<mapsto> part ''c1'' ''g1'' ''active'',
                                          ''c2'' \<mapsto> part ''c2'' ''g1'' ''active'']\<rparr>)
          ''g1'' ''c1'' (Some ''c2'') ''remove'' None) = False
   \<and> map_option status
       (components
          (snd (swap_component 10 10 []
                  (empty_monitor\<lparr>components := [''c1'' \<mapsto> part ''c1'' ''g1'' ''active'',
                                                  ''c2'' \<mapsto> part ''c2'' ''g1'' ''active'']\<rparr>)
                  ''g1'' ''c1'' (Some ''c2'') ''remove'' None)) ''c1'') = Some ''in_inventory''"
  by (simp add: swap_component_def analyze_gear_usage_def empty_monitor_def part_def)

text \<open>
  C4, where the code departs from it. Component c1 is retired; \<open>swap_component\<close> with
  c1 as the old component and the action remove succeeds and puts c1 in inventory.
\<close>

theorem swap_component_revives_retired:
  "swap_component 10 10 []
     (empty_monitor\<lparr>components := [''c1'' \<mapsto> part ''c1'' ''g1'' ''retired'']\<rparr>)
     ''g1'' ''c1'' None ''remove'' None
   = (True,
      empty_monitor
        \<lparr>components := [''c1'' \<mapsto> part ''c1'' ''g1'' ''in_inventory''],
         component_swaps :=
           [\<lparr>sw_date = 10, sw_gear_id = ''g1'', component_id = ''c1'', old_component_id = None,
             sw_action = ''remove'', mileage = 0, sw_notes = None\<rparr>]\<rparr>)"
  by (simp add: swap_component_def analyze_gear_usage_def empty_monitor_def part_def)




text \<open>
  C10. \<open>analyze_gear_usage\<close> returns a mapping exactly when the start date of every
  activity with a non-empty gear id parses; one such activity with an unparseable date
  makes the whole call raise.
\<close>

theorem analyze_gear_usage_needs_dates:
  "(\<exists>r. analyze_gear_usage self acts = Inr r) \<longleftrightarrow>
   (\<forall>a \<in> set acts. (\<exists>g. act_gear_id a = Some g \<and> g \<noteq> []) \<longrightarrow>
                       (\<exists>d. act_start_date a = Inr d))"
  unfolding analyze_gear_usage_def by (rule analyze_loop_total_iff)

text \<open>
  The theorem at two rides of g1, the second with a malformed date: the aggregation
  returns no mapping, while the Window Selector skips that ride and returns the first.
\<close>

theorem analyze_gear_usage_needs_dates_witness:
  "(\<nexists>r. analyze_gear_usage empty_monitor
           [ride 1 ''g1'' 10000 1, (ride 2 ''g1'' 20000 3)\<lparr>act_start_date := Inl ValueError\<rparr>]
         = Inr r)
   \<and> get_activities_between_dates
         [ride 1 ''g1'' 10000 1, (ride 2 ''g1'' 20000 3)\<lparr>act_start_date := Inl ValueError\<rparr>]
         None 10
       = [ride 1 ''g1'' 10000 1]"
  using analyze_gear_usage_needs_dates
    [of empty_monitor
        "[ride 1 ''g1'' 10000 1, (ride 2 ''g1'' 20000 3)\<lparr>act_start_date := Inl ValueError\<rparr>]"]
  by (simp add: ride_def get_activities_between_dates_def)

text \<open>
  C6, as the code has it. When the aggregation returns a mapping for a list, it returns
  one for every permutation of the list, with the same gears and, for every gear, the
  same gear id, sport types, activity count, first and last activity date and
  maintenance history; so a permutation raises exactly when the list does. The two
  totals are left out of this: \<open>total_distance_m\<close> is the float sum of the distances of
  the gear's activities, accumulated in list order with every addition rounded, and
  \<open>total_distance_km\<close> is that total divided by 1000 and rounded. Activities without a
  gear id, or with an empty one, are skipped: dropping them changes nothing, totals
  included. The function is a function of the stored maintenance records and the
  list, so two calls on one list agree in every field.
\<close>

theorem analyze_gear_usage_order_independent:
  "(mset xs = mset ys \<and> analyze_gear_usage self xs = Inr r \<longrightarrow>
      (\<exists>r'. analyze_gear_usage self ys = Inr r' \<and> dom r' = dom r
          \<and> (\<forall>g u u'. r g = Some u \<and> r' g = Some u' \<longrightarrow>
                gu_gear_id u' = gu_gear_id u \<and> sport_types u' = sport_types u
                \<and> activities_count u' = activities_count u
                \<and> first_activity_date u' = first_activity_date u
                \<and> last_activity_date u' = last_activity_date u
                \<and> maintenance_history u' = maintenance_history u)))
   \<and> (analyze_gear_usage self xs = Inr r \<and> r g = Some u \<longrightarrow>
        total_distance_m u =
          foldl (\<lambda>t a. round_double (t + get_distance a)) 0 [a \<leftarrow> xs. act_gear_id a = Some g]
        \<and> total_distance_km u = round_double (total_distance_m u / 1000))
   \<and> analyze_gear_usage self [a \<leftarrow> xs. \<exists>g. act_gear_id a = Some g \<and> g \<noteq> []]
       = analyze_gear_usage self xs"
proof (intro conjI impI)
  assume t: "analyze_gear_usage self xs = Inr r \<and> r g = Some u"
  then have run: "analyze_loop self Map.empty xs = Inr r" and u: "r g = Some u"
    by (simp_all add: analyze_gear_usage_def)
  have "g \<noteq> []" using analyze_loop_no_empty_key [OF run] u by auto
  then show "total_distance_m u =
          foldl (\<lambda>t a. round_double (t + get_distance a)) 0 [a \<leftarrow> xs. act_gear_id a = Some g]"
    using analyze_loop_totals [OF run u] by simp
  show "total_distance_km u = round_double (total_distance_m u / 1000)"
    using analyze_loop_km [OF run _ u] by simp
next
  show "analyze_gear_usage self [a \<leftarrow> xs. \<exists>g. act_gear_id a = Some g \<and> g \<noteq> []]
       = analyze_gear_usage self xs"
    unfolding analyze_gear_usage_def by (rule analyze_loop_skip)
  assume h: "mset xs = mset ys \<and> analyze_gear_usage self xs = Inr r"
  then obtain r' where r': "analyze_gear_usage self ys = Inr r'" "forget_all r' = forget_all r"
    unfolding analyze_gear_usage_def using analyze_loop_permute [of xs ys self Map.empty r]
    by blast
  have pointwise: "map_option forget_totals (r' g) = map_option forget_totals (r g)" for g
    using r'(2) by (simp add: forget_all_def fun_eq_iff)
  have "dom r' = dom r"
  proof (rule set_eqI)
    fix g
    show "g \<in> dom r' \<longleftrightarrow> g \<in> dom r"
      using pointwise [of g] by (cases "r g"; cases "r' g") auto
  qed
  moreover have "gu_gear_id u' = gu_gear_id u \<and> sport_types u' = sport_types u
                \<and> activities_count u' = activities_count u
                \<and> first_activity_date u' = first_activity_date u
                \<and> last_activity_date u' = last_activity_date u
                \<and> maintenance_history u' = maintenance_history u"
    if "r g = Some u \<and> r' g = Some u'" for g u u'
    using pointwise [of g] that by (intro forget_totals_fields) simp
  ultimately show "\<exists>r'. analyze_gear_usage self ys = Inr r' \<and> dom r' = dom r
          \<and> (\<forall>g u u'. r g = Some u \<and> r' g = Some u' \<longrightarrow>
                gu_gear_id u' = gu_gear_id u \<and> sport_types u' = sport_types u
                \<and> activities_count u' = activities_count u
                \<and> first_activity_date u' = first_activity_date u
                \<and> last_activity_date u' = last_activity_date u
                \<and> maintenance_history u' = maintenance_history u)"
    using r'(1) by blast
qed

text \<open>
  The theorem at two rides of g1 and one activity without gear, in two orders: the
  first order gives one usage record of 30 km over 2 activities, first used at instant
  1 and last at instant 3, and the second order gives a record of g1 with the same
  sport types, count and dates.
\<close>

theorem analyze_gear_usage_order_independent_witness:
  "mset [ride 1 ''g1'' 10000 1, (ride 3 ''g1'' 5000 5)\<lparr>act_gear_id := None\<rparr>, ride 2 ''g1'' 20000 3]
     = mset [ride 2 ''g1'' 20000 3, ride 1 ''g1'' 10000 1, (ride 3 ''g1'' 5000 5)\<lparr>act_gear_id := None\<rparr>]
   \<and> analyze_gear_usage empty_monitor
       [ride 1 ''g1'' 10000 1, (ride 3 ''g1'' 5000 5)\<lparr>act_gear_id := None\<rparr>, ride 2 ''g1'' 20000 3]
     = Inr [''g1'' \<mapsto> \<lparr>gu_gear_id = ''g1'', sport_types = {''Ride''}, total_distance_m = 30000,
                        total_distance_km = 30, activities_count = 2,
                        first_activity_date = Some 1, last_activity_date = Some 3,
                        maintenance_history = []\<rparr>]
   \<and> (\<exists>r' u'. analyze_gear_usage empty_monitor
         [ride 2 ''g1'' 20000 3, ride 1 ''g1'' 10000 1, (ride 3 ''g1'' 5000 5)\<lparr>act_gear_id := None\<rparr>]
         = Inr r'
       \<and> dom r' = {''g1''} \<and> r' ''g1'' = Some u'
       \<and> gu_gear_id u' = ''g1'' \<and> sport_types u' = {''Ride''} \<and> activities_count u' = 2
       \<and> first_activity_date u' = Some 1 \<and> last_activity_date u' = Some 3
       \<and> maintenance_history u' = [])"
proof -
  let ?xs = "[ride 1 ''g1'' 10000 1, (ride 3 ''g1'' 5000 5)\<lparr>act_gear_id := None\<rparr>,
              ride 2 ''g1'' 20000 3]"
  let ?ys = "[ride 2 ''g1'' 20000 3, ride 1 ''g1'' 10000 1,
              (ride 3 ''g1'' 5000 5)\<lparr>act_gear_id := None\<rparr>]"
  let ?u = "\<lparr>gu_gear_id = ''g1'', sport_types = {''Ride''}, total_distance_m = 30000,
             total_distance_km = 30, activities_count = 2,
             first_activity_date = Some 1, last_activity_date = Some 3,
             maintenance_history = []\<rparr>"
  let ?r = "[''g1'' \<mapsto> ?u]"
  have perm: "mset ?xs = mset ?ys" by (simp add: add.commute)
  have run: "analyze_gear_usage empty_monitor ?xs = Inr ?r"
    by (simp add: analyze_gear_usage_def analyze_activity_def update_usage_def new_usage_def
          get_distance_def empty_monitor_def ride_def numeral_2_eq_2)
  obtain r' where r': "analyze_gear_usage empty_monitor ?ys = Inr r'" "dom r' = dom ?r"
    and same: "\<forall>g u u'. ?r g = Some u \<and> r' g = Some u' \<longrightarrow>
                gu_gear_id u' = gu_gear_id u \<and> sport_types u' = sport_types u
                \<and> activities_count u' = activities_count u
                \<and> first_activity_date u' = first_activity_date u
                \<and> last_activity_date u' = last_activity_date u
                \<and> maintenance_history u' = maintenance_history u"
    using analyze_gear_usage_order_independent [of ?xs ?ys empty_monitor ?r] perm run by blast
  have "''g1'' \<in> dom r'" using r'(2) by simp
  then obtain u' where u': "r' ''g1'' = Some u'" by blast
  have "?r ''g1'' = Some ?u \<and> r' ''g1'' = Some u'" using u' by simp
  then have "gu_gear_id u' = gu_gear_id ?u \<and> sport_types u' = sport_types ?u
                \<and> activities_count u' = activities_count ?u
                \<and> first_activity_date u' = first_activity_date ?u
                \<and> last_activity_date u' = last_activity_date ?u
                \<and> maintenance_history u' = maintenance_history ?u"
    using same by blast
  then have "gu_gear_id u' = ''g1'' \<and> sport_types u' = {''Ride''} \<and> activities_count u' = 2
       \<and> first_activity_date u' = Some 1 \<and> last_activity_date u' = Some 3
       \<and> maintenance_history u' = []"
    by simp
  moreover have "dom r' = {''g1''}" using r'(2) by simp
  ultimately show ?thesis using perm run r'(1) u' by blast
qed

text \<open>
  C6 as stated fails: three rides of g1 over 10000.1, 20000.2 and 5000.3 metres, each
  distance written as the float that Python reads, give a total of 35000.600000000006
  metres in the order listed and of 35000.6 metres in the reverse order, two different
  floats, so \<open>total_distance_m\<close> depends on the order of the list.
\<close>

theorem analyze_gear_usage_float_order_counterexample:
  "mset [ride 1 ''g1'' (5497613114461389 / 549755813888) 1,
         ride 2 ''g1'' (5497613114461389 / 274877906944) 3,
         ride 3 ''g1'' (5497887992368333 / 1099511627776) 5]
     = mset [ride 3 ''g1'' (5497887992368333 / 1099511627776) 5,
             ride 2 ''g1'' (5497613114461389 / 274877906944) 3,
             ride 1 ''g1'' (5497613114461389 / 549755813888) 1]
   \<and> total_distance_m (the (projr (analyze_gear_usage empty_monitor
        [ride 1 ''g1'' (5497613114461389 / 549755813888) 1,
         ride 2 ''g1'' (5497613114461389 / 274877906944) 3,
         ride 3 ''g1'' (5497887992368333 / 1099511627776) 5]) ''g1''))
       = 1202611458723021 / 34359738368
   \<and> total_distance_m (the (projr (analyze_gear_usage empty_monitor
        [ride 3 ''g1'' (5497887992368333 / 1099511627776) 5,
         ride 2 ''g1'' (5497613114461389 / 274877906944) 3,
         ride 1 ''g1'' (5497613114461389 / 549755813888) 1]) ''g1''))
       = 4810445834892083 / 137438953472
   \<and> (1202611458723021 / 34359738368 :: rat) \<noteq> 4810445834892083 / 137438953472"
proof -
  have perm: "mset [ride 1 ''g1'' (5497613114461389 / 549755813888) 1,
         ride 2 ''g1'' (5497613114461389 / 274877906944) 3,
         ride 3 ''g1'' (5497887992368333 / 1099511627776) 5]
     = mset [ride 3 ''g1'' (5497887992368333 / 1099511627776) 5,
             ride 2 ''g1'' (5497613114461389 / 274877906944) 3,
             ride 1 ''g1'' (5497613114461389 / 549755813888) 1]"
    by (simp add: add.commute add.left_commute)
  have fwd: "total_distance_m (the (projr (analyze_gear_usage empty_monitor
        [ride 1 ''g1'' (5497613114461389 / 549755813888) 1,
         ride 2 ''g1'' (5497613114461389 / 274877906944) 3,
         ride 3 ''g1'' (5497887992368333 / 1099511627776) 5]) ''g1''))
       = 1202611458723021 / 34359738368"
    by code_simp
  have bwd: "total_distance_m (the (projr (analyze_gear_usage empty_monitor
        [ride 3 ''g1'' (5497887992368333 / 1099511627776) 5,
         ride 2 ''g1'' (5497613114461389 / 274877906944) 3,
         ride 1 ''g1'' (5497613114461389 / 549755813888) 1]) ''g1''))
       = 4810445834892083 / 137438953472"
    by code_simp
  have "(1202611458723021 / 34359738368 :: rat) \<noteq> 4810445834892083 / 137438953472" by simp
  with perm fwd bwd show ?thesis by blast
qed

end
